theory Spec2Isabelle
  imports Complex_Main "HOL-Library.Log_Nat"
begin

section \<open>Data model\<close>

text \<open>
  The three variants of the repository (the notebook, the SQL script and the R script) read
  the same table \<open>es_data\<close> with the columns Time, Open, High, Low, Close and Volume.

  A timestamp is naive (no time zone) and has minute resolution
  (\<^verbatim>\<open>format='%m/%d/%Y %H:%M'\<close>); it is the number of minutes since an arbitrary
  midnight. Prices are finite numbers, held exactly as rationals: rounding of binary floating
  point is outside this model. Volumes are mathematical integers: overflow of the 64-bit
  accumulator is outside this model.
\<close>

record RawBar =
  Time :: int
  Open :: rat
  High :: rat
  Low :: rat
  Close :: rat
  Volume :: int

text \<open>The calendar date of a timestamp: \<^verbatim>\<open>DATE(Time)\<close>, \<^verbatim>\<open>as.Date(Time)\<close>, the bin of
  \<^verbatim>\<open>resample('D')\<close>. The day number, 1440 minutes to the day, rounded down.\<close>

definition date_of :: "int \<Rightarrow> int" where
  "date_of t = t div 1440"

text \<open>
  A float column of a pandas DataFrame: a finite number, a missing value (NaN), or an
  infinity (\<open>Inf True\<close> is \<open>+inf\<close>). Arithmetic is exact on finite numbers and follows
  IEEE 754 on the special values; signed zeros are not modelled (a zero divisor counts as
  \<open>+0\<close>).
\<close>

datatype fl = NaN | Inf bool | Fin rat

fun fl_div :: "fl \<Rightarrow> fl \<Rightarrow> fl" where
  "fl_div (Fin a) (Fin b) =
     (if b \<noteq> 0 then Fin (a / b) else if a = 0 then NaN else Inf (0 < a))"
| "fl_div (Fin a) (Inf s) = Fin 0"
| "fl_div (Inf s) (Fin b) = Inf (s = (0 \<le> b))"
| "fl_div (Inf s) (Inf t) = NaN"
| "fl_div NaN y = NaN"
| "fl_div x NaN = NaN"

fun fl_sub :: "fl \<Rightarrow> fl \<Rightarrow> fl" where
  "fl_sub (Fin a) (Fin b) = Fin (a - b)"
| "fl_sub (Fin a) (Inf s) = Inf (\<not> s)"
| "fl_sub (Inf s) (Fin b) = Inf s"
| "fl_sub (Inf s) (Inf t) = (if s = t then NaN else Inf s)"
| "fl_sub NaN y = NaN"
| "fl_sub x NaN = NaN"



fun fl_ge :: "fl \<Rightarrow> fl \<Rightarrow> bool" where
  "fl_ge (Fin a) (Fin b) = (b \<le> a)"
| "fl_ge (Inf s) (Fin b) = s"
| "fl_ge (Fin a) (Inf t) = (\<not> t)"
| "fl_ge (Inf s) (Inf t) = (s \<or> \<not> t)"
| "fl_ge NaN y = False"
| "fl_ge x NaN = False"

text \<open>
  Double precision. The result of a float operation of the notebook is the exact result
  rounded to the nearest double, ties to the even significand. A double other than zero is
  \<open>m * 2 ^ e\<close> with \<open>2 ^ 52 \<le> \<bar>m\<bar> < 2 ^ 53\<close>; \<open>binade x\<close> is the integer part of the
  binary logarithm of \<open>\<bar>x\<bar>\<close>. The range of the exponent (overflow, subnormal numbers) is
  not modelled: prices and returns are far from it.
\<close>

definition pow2 :: "int \<Rightarrow> rat" where
  "pow2 k = (if 0 \<le> k then 2 ^ nat k else 1 / 2 ^ nat (- k))"

definition round_half_even :: "rat \<Rightarrow> int" where
  "round_half_even x =
     (let f = \<lfloor>x\<rfloor>; d = x - of_int f
      in if d < 1 / 2 then f else if 1 / 2 < d then f + 1 else if even f then f else f + 1)"

definition binade :: "rat \<Rightarrow> int" where
  "binade x =
     (let k = bitlen (fst (quotient_of \<bar>x\<bar>)) - bitlen (snd (quotient_of \<bar>x\<bar>))
      in if pow2 k \<le> \<bar>x\<bar> then k else k - 1)"

definition round_double :: "rat \<Rightarrow> rat" where
  "round_double x =
     (if x = 0 then 0
      else let e = binade x - 52 in of_int (round_half_even (x / pow2 e)) * pow2 e)"

fun fl_round :: "fl \<Rightarrow> fl" where
  "fl_round (Fin q) = Fin (round_double q)"
| "fl_round v = v"

definition f64_div :: "fl \<Rightarrow> fl \<Rightarrow> fl" where
  "f64_div a b = fl_round (fl_div a b)"

definition f64_sub :: "fl \<Rightarrow> fl \<Rightarrow> fl" where
  "f64_sub a b = fl_round (fl_sub a b)"

text \<open>A row of a daily table. The price columns are \<open>fl\<close> in the notebook, where a day
  can have no data, and \<open>rat\<close> in the SQL and R variants.\<close>

record 'p DailyBar =
  Date :: int
  Open_d :: 'p
  High_d :: 'p
  Low_d :: 'p
  Close_d :: 'p
  Volume_d :: int

section \<open>The Daily Aggregator\<close>

subsection \<open>Notebook: \<^verbatim>\<open>es_data.resample('D').agg({...})\<close>\<close>

text \<open>
  The aggregations of a resampler on one bin. \<^verbatim>\<open>'first'\<close>, \<^verbatim>\<open>'max'\<close>,
  \<^verbatim>\<open>'min'\<close> and \<^verbatim>\<open>'last'\<close> give NaN on an empty bin; \<^verbatim>\<open>'sum'\<close> gives 0.
\<close>

fun agg_first :: "rat list \<Rightarrow> fl" where
  "agg_first [] = NaN"
| "agg_first (x # xs) = Fin x"

definition agg_last :: "rat list \<Rightarrow> fl" where
  "agg_last xs = (if xs = [] then NaN else Fin (last xs))"

definition agg_max :: "rat list \<Rightarrow> fl" where
  "agg_max xs = (if xs = [] then NaN else Fin (Max (set xs)))"

definition agg_min :: "rat list \<Rightarrow> fl" where
  "agg_min xs = (if xs = [] then NaN else Fin (Min (set xs)))"

definition agg_sum :: "int list \<Rightarrow> int" where
  "agg_sum xs = sum_list xs"

text \<open>The rows of one calendar day, in the order of the table.\<close>

definition day_rows :: "RawBar list \<Rightarrow> int \<Rightarrow> RawBar list" where
  "day_rows obj d = [b \<leftarrow> obj. date_of (Time b) = d]"

definition agg_bin :: "RawBar list \<Rightarrow> int \<Rightarrow> fl DailyBar" where
  "agg_bin obj d =
     (let g = day_rows obj d in
      \<lparr>Date = d,
       Open_d = agg_first (map Open g),
       High_d = agg_max (map High g),
       Low_d = agg_min (map Low g),
       Close_d = agg_last (map Close g),
       Volume_d = agg_sum (map Volume g)\<rparr>)"

text \<open>
  \<^verbatim>\<open>resample('D')\<close> orders the table by its index with a stable sort, and makes one bin
  for every calendar day from the day of the first timestamp to the day of the last one,
  both included, whether the day has rows or not. An empty table has no bins.
\<close>

definition resample_agg :: "RawBar list \<Rightarrow> fl DailyBar list" where
  "resample_agg es_data =
     (if es_data = [] then []
      else let obj = sort_key Time es_data
           in map (agg_bin obj) [date_of (Time (hd obj)) .. date_of (Time (last obj))])"

text \<open>The calendar dates that occur in a table.\<close>

definition dates :: "RawBar list \<Rightarrow> int set" where
  "dates es_data = date_of ` Time ` set es_data"

subsection \<open>R: \<^verbatim>\<open>group_by(Date) %>% summarise(...)\<close>\<close>

text \<open>
  \<^verbatim>\<open>group_by\<close> makes one group for each value of \<open>Date\<close> that occurs, in ascending
  order, and keeps the rows of a group in the order of the table; no group is empty.
  \<^verbatim>\<open>first\<close> and \<^verbatim>\<open>last\<close> are the first and last row of the group.
\<close>

definition group_keys :: "RawBar list \<Rightarrow> int list" where
  "group_keys es_data = sort (remdups (map (\<lambda>b. date_of (Time b)) es_data))"

definition summarise_group :: "RawBar list \<Rightarrow> int \<Rightarrow> rat DailyBar" where
  "summarise_group es_data d =
     (let g = day_rows es_data d in
      \<lparr>Date = d,
       Open_d = hd (map Open g),
       High_d = Max (set (map High g)),
       Low_d = Min (set (map Low g)),
       Close_d = last (map Close g),
       Volume_d = sum_list (map Volume g)\<rparr>)"

definition es_daily_R :: "RawBar list \<Rightarrow> rat DailyBar list" where
  "es_daily_R es_data = map (summarise_group es_data) (group_keys es_data)"

subsection \<open>SQL: \<^verbatim>\<open>SELECT ... FROM es_data GROUP BY DATE(Time)\<close>\<close>

text \<open>
  One row for each value of \<^verbatim>\<open>DATE(Time)\<close> that occurs, so no group is empty. The
  query has no \<^verbatim>\<open>ORDER BY\<close>; the rows are taken in ascending date order here. The script's columns
  are \<^verbatim>\<open>MIN(Open)\<close>, \<^verbatim>\<open>MAX(High)\<close>, \<^verbatim>\<open>MIN(Low)\<close>, \<^verbatim>\<open>MAX(Close)\<close> and
  \<^verbatim>\<open>SUM(Volume)\<close>.
\<close>

definition sql_group :: "RawBar list \<Rightarrow> int \<Rightarrow> rat DailyBar" where
  "sql_group es_data d =
     (let g = day_rows es_data d in
      \<lparr>Date = d,
       Open_d = Min (set (map Open g)),
       High_d = Max (set (map High g)),
       Low_d = Min (set (map Low g)),
       Close_d = Max (set (map Close g)),
       Volume_d = sum_list (map Volume g)\<rparr>)"

definition sql_daily :: "RawBar list \<Rightarrow> rat DailyBar list" where
  "sql_daily es_data = map (sql_group es_data) (group_keys es_data)"

section \<open>The Return and Signal Calculator\<close>

subsection \<open>Notebook: \<^verbatim>\<open>es_daily['Close'].pct_change()\<close>\<close>

text \<open>
  \<^verbatim>\<open>pct_change()\<close> with its defaults (\<^verbatim>\<open>periods=1\<close>, and \<^verbatim>\<open>fill_method='pad'\<close>, the
  default of pandas up to 2.x) is \<^verbatim>\<open>data = self.ffill(); rs = data / data.shift(1) - 1\<close>:
  a missing value takes the value of the last row before it that has one, and the first row
  has nothing before it. \<open>pct_change_f64\<close> is the computation in double precision, the
  closes being doubles; \<open>pct_change\<close> is the same computation with the quotient and the
  difference not rounded.
\<close>

fun ffill_from :: "fl \<Rightarrow> fl list \<Rightarrow> fl list" where
  "ffill_from prev [] = []"
| "ffill_from prev (x # xs) =
     (if x = NaN then prev # ffill_from prev xs else x # ffill_from x xs)"

definition ffill :: "fl list \<Rightarrow> fl list" where
  "ffill xs = ffill_from NaN xs"

definition shift1 :: "fl list \<Rightarrow> fl list" where
  "shift1 xs = (if xs = [] then [] else NaN # butlast xs)"


definition pct_change_f64 :: "fl list \<Rightarrow> fl list" where
  "pct_change_f64 xs =
     (let data = ffill xs
      in map (\<lambda>(a, b). f64_sub (f64_div a b) (Fin 1)) (zip data (shift1 data)))"

text \<open>
  The return of the data model, \<open>(close - prior_close) / prior_close\<close>, in double
  precision.
\<close>

definition spec_return :: "fl \<Rightarrow> fl \<Rightarrow> fl" where
  "spec_return close prior_close = f64_div (f64_sub close prior_close) prior_close"

text \<open>The most recent value up to row \<open>i\<close> that is not missing, NaN when there is none.\<close>

definition last_defined :: "fl list \<Rightarrow> nat \<Rightarrow> fl" where
  "last_defined xs i = (case [x \<leftarrow> rev (take (Suc i) xs). x \<noteq> NaN] of [] \<Rightarrow> NaN | x # _ \<Rightarrow> x)"



subsection \<open>SQL: \<^verbatim>\<open>LAG(Close, 1) OVER (ORDER BY Date)\<close>\<close>

text \<open>
  SQL arithmetic: NULL (\<open>None\<close>) in, NULL out; a division by zero gives NULL. The window
  orders the rows by Date; \<^verbatim>\<open>LAG(Close, 1)\<close> is the Close of the row before, NULL on the
  first row.
\<close>

definition sql_sub :: "rat option \<Rightarrow> rat option \<Rightarrow> rat option" where
  "sql_sub a b = (case (a, b) of (Some x, Some y) \<Rightarrow> Some (x - y) | _ \<Rightarrow> None)"

definition sql_div :: "rat option \<Rightarrow> rat option \<Rightarrow> rat option" where
  "sql_div a b =
     (case (a, b) of (Some x, Some y) \<Rightarrow> (if y = 0 then None else Some (x / y)) | _ \<Rightarrow> None)"

definition lag1 :: "'a list \<Rightarrow> 'a option list" where
  "lag1 xs = (if xs = [] then [] else None # map Some (butlast xs))"

definition daily_close :: "RawBar list \<Rightarrow> (int \<times> rat) list" where
  "daily_close es_data =
     map (\<lambda>d. (d, Max (set (map Close (day_rows es_data d))))) (group_keys es_data)"

text \<open>The rows (Date, Close, Daily\_Return) of the returns query.\<close>

definition sql_returns :: "(int \<times> rat) list \<Rightarrow> (int \<times> rat \<times> rat option) list" where
  "sql_returns dc =
     (let rows = sort_key fst dc
      in map (\<lambda>((d, c), prev). (d, c, sql_div (sql_sub (Some c) prev) prev))
           (zip rows (lag1 (map snd rows))))"


subsection \<open>Moving averages\<close>






section \<open>The Correlation and Distribution Reporter\<close>

text \<open>
  \<^verbatim>\<open>es_daily[['Open', 'High', 'Low', 'Close', 'Volume']].corr()\<close>: the Pearson
  correlation of every pair of columns, over the rows where both values are finite, with
  \<^verbatim>\<open>min_periods=1\<close>. For one pair, pandas runs Welford's recurrence over the rows
  (\<open>nobs\<close>, the two means, the two sums of squared deviations, the co-deviation), and
  the result is NaN (\<open>None\<close>) when \<open>nobs < min_periods\<close> or when the divisor
  \<open>sqrt (ssqdm_x * ssqdm_y)\<close> is zero; no exception is raised. The square root takes the
  result out of the rationals.
\<close>

record welford =
  nobs :: nat
  meanx :: rat
  meany :: rat
  ssqdm_x :: rat
  ssqdm_y :: rat
  covxy :: rat

definition welford_init :: welford where
  "welford_init = \<lparr>nobs = 0, meanx = 0, meany = 0, ssqdm_x = 0, ssqdm_y = 0, covxy = 0\<rparr>"

fun welford_step :: "welford \<Rightarrow> fl \<times> fl \<Rightarrow> welford" where
  "welford_step st (Fin vx, Fin vy) =
     (let n = Suc (nobs st);
          dx = vx - meanx st;
          dy = vy - meany st;
          mx = meanx st + 1 / of_nat n * dx;
          my = meany st + 1 / of_nat n * dy
      in \<lparr>nobs = n, meanx = mx, meany = my,
          ssqdm_x = ssqdm_x st + (vx - mx) * dx,
          ssqdm_y = ssqdm_y st + (vy - my) * dy,
          covxy = covxy st + (vx - mx) * dy\<rparr>)"
| "welford_step st (x, y) = st"

definition nancorr :: "fl list \<Rightarrow> fl list \<Rightarrow> real option" where
  "nancorr xs ys =
     (let st = foldl welford_step welford_init (zip xs ys)
      in if nobs st < 1 then None
         else let divisor = sqrt (of_rat (ssqdm_x st * ssqdm_y st))
              in if divisor \<noteq> 0
                 then Some (max (- 1) (min 1 (of_rat (covxy st) / divisor)))
                 else None)"

definition corr_columns :: "fl DailyBar list \<Rightarrow> fl list list" where
  "corr_columns es_daily =
     [map Open_d es_daily, map High_d es_daily, map Low_d es_daily, map Close_d es_daily,
      map (\<lambda>r. Fin (of_int (Volume_d r))) es_daily]"

definition correlation_matrix :: "fl DailyBar list \<Rightarrow> real option list list" where
  "correlation_matrix es_daily =
     (let cols = corr_columns es_daily in map (\<lambda>x. map (\<lambda>y. nancorr x y) cols) cols)"

section \<open>The Forecaster\<close>

text \<open>
  \<^verbatim>\<open>es_close = es_daily['Close'].dropna()\<close>, then
  \<^verbatim>\<open>ARIMA(es_close, order=(5, 1, 0)).fit()\<close> and
  \<^verbatim>\<open>es_daily['Forecast'] = arima_result.predict(start=len(es_close),
  end=len(es_close) + 30, dynamic=True)\<close>.
  The notebook does not look at the length of \<open>es_close\<close>. Fitting belongs to the
  statistics library and is a parameter here: on a series it raises (\<open>Inl\<close>) or gives a
  fitted model, a function from the index of an observation to the value predicted for it.
  \<^verbatim>\<open>predict\<close> returns one prediction for every index from \<open>start\<close> to \<open>end\<close>, both
  included.
\<close>

definition dropna :: "fl list \<Rightarrow> fl list" where
  "dropna xs = [x \<leftarrow> xs. x \<noteq> NaN]"

definition predict :: "(nat \<Rightarrow> 'v) \<Rightarrow> nat \<Rightarrow> nat \<Rightarrow> (nat \<times> 'v) list" where
  "predict arima_result start end = map (\<lambda>k. (k, arima_result k)) [start..<Suc end]"

text \<open>
  The predictions come back as a series with an index of its own. The library labels the
  prediction at position \<open>k\<close>, which is past the last observation, with the day that
  many days after the last day of \<open>es_close\<close> when it extends the dates of the series
  (\<open>dated\<close>), and with the position itself when it does not; which of the two it does
  is a parameter. The rows of \<open>es_daily\<close> are labelled with their days.
\<close>

datatype label = Day int | Pos nat

definition forecast_index :: "bool \<Rightarrow> int list \<Rightarrow> nat \<Rightarrow> label" where
  "forecast_index dated days k =
     (if dated \<and> days \<noteq> [] then Day (last days + 1 + int (k - length days)) else Pos k)"

text \<open>
  The assignment to a column aligns the series on the index of the table: a row gets the
  value of the series at the label of the row, and a missing value (\<open>None\<close>) when the
  series has no such label.
\<close>

definition assign_column :: "label list \<Rightarrow> (label \<times> 'v) list \<Rightarrow> 'v option list" where
  "assign_column index series = map (map_of series) index"

text \<open>The Forecaster: what \<^verbatim>\<open>predict\<close> returns, and the column \<^verbatim>\<open>es_daily['Forecast']\<close>.\<close>

definition forecast ::
  "(fl list \<Rightarrow> 'e + (nat \<Rightarrow> 'v)) \<Rightarrow> bool \<Rightarrow> fl DailyBar list \<Rightarrow>
     'e + ((nat \<times> 'v) list \<times> 'v option list)" where
  "forecast fit dated es_daily =
     (let rows = [r \<leftarrow> es_daily. Close_d r \<noteq> NaN];
          es_close = map Close_d rows
      in case fit es_close of
           Inl e \<Rightarrow> Inl e
         | Inr arima_result \<Rightarrow>
             (let predicted = predict arima_result (length es_close) (length es_close + 30);
                  series = map (\<lambda>(k, v). (forecast_index dated (map Date rows) k, v)) predicted
              in Inr (predicted, assign_column (map (\<lambda>r. Day (Date r)) es_daily) series)))"

section \<open>Validity of a bar, and example tables\<close>

text \<open>The validity of a bar that market data implies and the source does not check.\<close>

definition valid_bar :: "RawBar \<Rightarrow> bool" where
  "valid_bar b = (max (Open b) (Close b) \<le> High b \<and> Low b \<le> min (Open b) (Close b))"

text \<open>Two bars of day 1, at 09:30 and 09:31; the session opens high and closes low.\<close>

definition one_day :: "RawBar list" where
  "one_day =
     [\<lparr>Time = 2010, Open = 101, High = 102, Low = 100, Close = 203 / 2, Volume = 10\<rparr>,
      \<lparr>Time = 2011, Open = 201 / 2, High = 103, Low = 99, Close = 100, Volume = 5\<rparr>]"

text \<open>A bar on day 1 and a bar on day 3, none on day 2.\<close>

definition gap_days :: "RawBar list" where
  "gap_days =
     [\<lparr>Time = 2010, Open = 99, High = 101, Low = 98, Close = 100, Volume = 7\<rparr>,
      \<lparr>Time = 4890, Open = 108, High = 111, Low = 107, Close = 110, Volume = 4\<rparr>]"



text \<open>Two days in a row with the closes 100 and 103, and with the closes 100 and 101.\<close>

definition up_three :: "RawBar list" where
  "up_three =
     [\<lparr>Time = 2010, Open = 99, High = 101, Low = 98, Close = 100, Volume = 7\<rparr>,
      \<lparr>Time = 3450, Open = 100, High = 104, Low = 100, Close = 103, Volume = 9\<rparr>]"



text \<open>Sixty days in a row, one bar a day, the closes between 4000 and 4040.\<close>

definition sixty_days :: "RawBar list" where
  "sixty_days =
     map (\<lambda>k. \<lparr>Time = 1440 * (int k + 1) + 570,
               Open = 4000 + of_int ((int k * 29 + 3) mod 37),
               High = 4040 + of_int ((int k * 31) mod 11),
               Low = 3990 - of_int ((int k * 7) mod 5),
               Close = 4000 + of_int ((int k * int k * 7 + int k * 13) mod 41),
               Volume = 1000 + int k\<rparr>) [0..<60]"

text \<open>
  A stand-in for the library's fit, to run the Forecaster on the tables above: it refuses a
  series of fewer than 6 observations, the minimum the specification names, and otherwise
  predicts the last close at every index.
\<close>

datatype fit_error = Refused

definition guarded_fit :: "fl list \<Rightarrow> fit_error + (nat \<Rightarrow> fl)" where
  "guarded_fit es_close =
     (if length es_close < 6 then Inl Refused else Inr (\<lambda>k. last es_close))"

section \<open>Properties of the Daily Aggregator\<close>

subsection \<open>Auxiliary facts\<close>

lemma Date_agg_bin: "Date (agg_bin obj d) = d"
  by (simp add: agg_bin_def Let_def)

lemma date_of_mono: "a \<le> b \<Longrightarrow> date_of a \<le> date_of b"
  by (simp add: date_of_def zdiv_mono1)

lemma sorted_hd_le: "sorted (map f xs) \<Longrightarrow> x \<in> set xs \<Longrightarrow> f (hd xs) \<le> f x"
  by (cases xs) auto

lemma sorted_le_last: "sorted (map f xs) \<Longrightarrow> x \<in> set xs \<Longrightarrow> f x \<le> f (last xs)"
  by (induction xs) (auto split: if_splits)

lemma dates_sort: "dates (sort_key Time es) = dates es"
  by (simp add: dates_def)

lemma first_date:
  assumes "es \<noteq> []"
  shows "date_of (Time (hd (sort_key Time es))) = Min (dates es)"
proof -
  let ?obj = "sort_key Time es"
  have ne: "?obj \<noteq> []" using assms by (metis length_0_conv length_sort)
  have inD: "date_of (Time (hd ?obj)) \<in> dates es"
    using ne hd_in_set [OF ne] by (auto simp: dates_def)
  have "\<And>d. d \<in> dates es \<Longrightarrow> date_of (Time (hd ?obj)) \<le> d"
  proof -
    fix d assume "d \<in> dates es"
    then obtain b where b: "b \<in> set ?obj" "d = date_of (Time b)" by (auto simp: dates_def)
    have "Time (hd ?obj) \<le> Time b" using sorted_hd_le [of Time ?obj b] b by simp
    then show "date_of (Time (hd ?obj)) \<le> d" using b date_of_mono by simp
  qed
  then show ?thesis using inD by (intro Min_eqI [symmetric]) (auto simp: dates_def)
qed

lemma last_date:
  assumes "es \<noteq> []"
  shows "date_of (Time (last (sort_key Time es))) = Max (dates es)"
proof -
  let ?obj = "sort_key Time es"
  have ne: "?obj \<noteq> []" using assms by (metis length_0_conv length_sort)
  have inD: "date_of (Time (last ?obj)) \<in> dates es"
    using ne last_in_set [OF ne] by (auto simp: dates_def)
  have "\<And>d. d \<in> dates es \<Longrightarrow> d \<le> date_of (Time (last ?obj))"
  proof -
    fix d assume "d \<in> dates es"
    then obtain b where b: "b \<in> set ?obj" "d = date_of (Time b)" by (auto simp: dates_def)
    have "Time b \<le> Time (last ?obj)" using sorted_le_last [of Time ?obj b] b by simp
    then show "d \<le> date_of (Time (last ?obj))" using b date_of_mono by simp
  qed
  then show ?thesis using inD by (intro Max_eqI [symmetric]) (auto simp: dates_def)
qed

lemma resample_agg_dates:
  "es \<noteq> [] \<Longrightarrow> map Date (resample_agg es) = [Min (dates es) .. Max (dates es)]"
  by (simp add: resample_agg_def Let_def first_date last_date comp_def Date_agg_bin)

lemma day_rows_empty: "d \<notin> dates es \<Longrightarrow> day_rows (sort_key Time es) d = []"
  by (auto simp: day_rows_def dates_def filter_empty_conv)

lemma day_rows_sort: "day_rows (sort_key Time es) d = sort_key Time (day_rows es d)"
  by (simp add: day_rows_def filter_sort)

lemma sum_list_day_rows:
  assumes "distinct ds" and "f ` set xs \<subseteq> set ds"
  shows "(\<Sum>d\<leftarrow>ds. sum_list (map (v::'a \<Rightarrow> int) [b \<leftarrow> xs. f b = d])) = sum_list (map v xs)"
  using assms(2)
proof (induction xs)
  case Nil
  then show ?case by simp
next
  case (Cons x xs)
  have "(\<Sum>d\<leftarrow>ds. sum_list (map v [b \<leftarrow> x # xs. f b = d]))
      = (\<Sum>d\<leftarrow>ds. (if f x = d then v x else 0) + sum_list (map v [b \<leftarrow> xs. f b = d]))"
    by (intro arg_cong [where f = sum_list] map_cong) auto
  also have "\<dots> = (\<Sum>d\<leftarrow>ds. if f x = d then v x else 0) + (\<Sum>d\<leftarrow>ds. sum_list (map v [b \<leftarrow> xs. f b = d]))"
    by (simp add: sum_list_addf)
  also have "(\<Sum>d\<leftarrow>ds. if f x = d then v x else 0) = v x"
    using assms(1) Cons.prems by (simp add: sum_list_distinct_conv_sum_set)
  finally show ?case using Cons by simp
qed

lemma sum_list_insort_key:
  "sum_list (map (v::'a \<Rightarrow> int) (insort_key f x xs)) = v x + sum_list (map v xs)"
  by (induction xs) auto

lemma sum_list_sort_key:
  "sum_list (map (v::'a \<Rightarrow> int) (sort_key f xs)) = sum_list (map v xs)"
  by (induction xs) (auto simp: sum_list_insort_key)

lemma dates_subset_range:
  "es \<noteq> [] \<Longrightarrow> dates es \<subseteq> {Min (dates es) .. Max (dates es)}"
  by (auto simp: dates_def)

lemma resample_agg_volume:
  "sum_list (map Volume_d (resample_agg es)) = sum_list (map Volume es)"
proof (cases "es = []")
  case True
  then show ?thesis by (simp add: resample_agg_def)
next
  case False
  let ?obj = "sort_key Time es"
  have "sum_list (map Volume_d (resample_agg es))
      = (\<Sum>d\<leftarrow>[Min (dates es) .. Max (dates es)]. sum_list (map Volume [b \<leftarrow> ?obj. date_of (Time b) = d]))"
    using False
    by (simp add: resample_agg_def Let_def first_date last_date comp_def agg_bin_def
        agg_sum_def day_rows_def)
  also have "\<dots> = sum_list (map Volume ?obj)"
    using dates_subset_range [OF False]
    by (intro sum_list_day_rows) (auto simp: dates_def)
  also have "\<dots> = sum_list (map Volume es)"
    by (rule sum_list_sort_key)
  finally show ?thesis .
qed

subsection \<open>The rows of the notebook's daily table\<close>

lemma gap_days_dates: "dates gap_days = {1, 3}"
  by (simp add: dates_def gap_days_def date_of_def)

lemma gap_days_resample:
  "resample_agg gap_days =
    [\<lparr>Date = 1, Open_d = Fin 99, High_d = Fin 101, Low_d = Fin 98, Close_d = Fin 100, Volume_d = 7\<rparr>,
     \<lparr>Date = 2, Open_d = NaN, High_d = NaN, Low_d = NaN, Close_d = NaN, Volume_d = 0\<rparr>,
     \<lparr>Date = 3, Open_d = Fin 108, High_d = Fin 111, Low_d = Fin 107, Close_d = Fin 110, Volume_d = 4\<rparr>]"
  by (simp add: resample_agg_def gap_days_def date_of_def agg_bin_def day_rows_def Let_def
      agg_last_def agg_max_def agg_min_def agg_sum_def upto_rec1)

text \<open>
  C10. In the notebook, the daily table has one row for every calendar day from the first
  date of the input to the last one, both included, and the row of a day that has no bar
  has volume 0 and missing open, high, low and close.
\<close>

theorem resample_agg_calendar_days:
  "es \<noteq> [] \<Longrightarrow>
     map Date (resample_agg es) = [Min (dates es) .. Max (dates es)] \<and>
     (\<forall>r \<in> set (resample_agg es). Date r \<notin> dates es \<longrightarrow>
        Volume_d r = 0 \<and> Open_d r = NaN \<and> High_d r = NaN \<and> Low_d r = NaN \<and> Close_d r = NaN)"
proof
  assume ne: "es \<noteq> []"
  show "map Date (resample_agg es) = [Min (dates es) .. Max (dates es)]"
    using ne by (rule resample_agg_dates)
  show "\<forall>r \<in> set (resample_agg es). Date r \<notin> dates es \<longrightarrow>
        Volume_d r = 0 \<and> Open_d r = NaN \<and> High_d r = NaN \<and> Low_d r = NaN \<and> Close_d r = NaN"
  proof (intro ballI impI)
    fix r assume r: "r \<in> set (resample_agg es)" and out: "Date r \<notin> dates es"
    from r ne obtain d where d: "r = agg_bin (sort_key Time es) d"
      by (auto simp: resample_agg_def Let_def)
    then have "Date r = d" by (simp add: Date_agg_bin)
    with out have "day_rows (sort_key Time es) d = []" by (simp add: day_rows_empty)
    with d show "Volume_d r = 0 \<and> Open_d r = NaN \<and> High_d r = NaN \<and> Low_d r = NaN \<and> Close_d r = NaN"
      by (simp add: agg_bin_def agg_last_def agg_max_def agg_min_def agg_sum_def)
  qed
qed

text \<open>The table \<open>gap_days\<close> has bars on days 1 and 3: day 2 gets an empty row.\<close>

theorem resample_agg_calendar_days_witness:
  "gap_days \<noteq> [] \<and> map Date (resample_agg gap_days) = [1, 2, 3] \<and>
   (\<exists>r \<in> set (resample_agg gap_days). Date r = 2 \<and> Date r \<notin> dates gap_days \<and>
      Volume_d r = 0 \<and> Open_d r = NaN \<and> High_d r = NaN \<and> Low_d r = NaN \<and> Close_d r = NaN)"
proof -
  have ne: "gap_days \<noteq> []" by (simp add: gap_days_def)
  have "map Date (resample_agg gap_days) = [1, 2, 3]"
    using resample_agg_calendar_days [OF ne] by (simp add: gap_days_dates upto_rec1)
  moreover have "\<exists>r \<in> set (resample_agg gap_days). Date r = 2 \<and> Date r \<notin> dates gap_days"
    by (simp add: gap_days_resample gap_days_dates)
  ultimately show ?thesis
    using ne resample_agg_calendar_days [OF ne] by auto
qed

text \<open>
  C2 as stated fails on the notebook: its daily table for \<open>gap_days\<close> has a row for day 2,
  a date that does not occur in the input.
\<close>

theorem resample_agg_extra_date: "2 \<in> Date ` set (resample_agg gap_days) \<and> 2 \<notin> dates gap_days"
  by (simp add: gap_days_resample gap_days_dates)

text \<open>
  C2, amended. For every table, the empty one included, the notebook's daily table has
  exactly one row for every calendar day from the first date of the input to the last one
  (so one for every date that occurs in the input), in ascending date order; the volumes of
  the rows add up to the volumes of the input; the empty table gives the empty table.
\<close>

theorem resample_agg_days:
  "map Date (resample_agg es) = (if es = [] then [] else [Min (dates es) .. Max (dates es)]) \<and>
   sorted (map Date (resample_agg es)) \<and> distinct (map Date (resample_agg es)) \<and>
   dates es \<subseteq> set (map Date (resample_agg es)) \<and>
   sum_list (map Volume_d (resample_agg es)) = sum_list (map Volume es) \<and>
   resample_agg [] = []"
proof (cases "es = []")
  case True
  then show ?thesis by (simp add: resample_agg_def dates_def)
next
  case False
  have m: "map Date (resample_agg es) = [Min (dates es) .. Max (dates es)]"
    using False by (rule resample_agg_dates)
  have "dates es \<subseteq> set (map Date (resample_agg es))"
    unfolding m using dates_subset_range [OF False] by simp
  moreover have "sorted (map Date (resample_agg es))" "distinct (map Date (resample_agg es))"
    unfolding m by simp_all
  moreover have "resample_agg [] = []" by (simp add: resample_agg_def)
  ultimately show ?thesis using False m resample_agg_volume by simp
qed

theorem resample_agg_days_witness:
  "map Date (resample_agg gap_days) = [1, 2, 3] \<and>
   sum_list (map Volume_d (resample_agg gap_days)) = 11"
  using resample_agg_days [of gap_days]
  by (simp add: gap_days_dates upto_rec1) (simp add: gap_days_def)

subsection \<open>One date: open, high, low, close, volume\<close>

lemma set_group_keys: "set (group_keys es) = dates es"
  by (auto simp: group_keys_def dates_def)

lemma day_rows_nonempty: "d \<in> dates es \<Longrightarrow> set obj = set es \<Longrightarrow> day_rows obj d \<noteq> []"
  by (auto simp: day_rows_def dates_def filter_empty_conv)

lemma day_rows_valid: "list_all valid_bar es \<Longrightarrow> set obj = set es \<Longrightarrow> b \<in> set (day_rows obj d) \<Longrightarrow> Low b \<le> High b"
  by (auto simp: day_rows_def list_all_iff valid_bar_def)

lemma Min_low_le_Max_high:
  assumes "g \<noteq> []" and "\<And>b. b \<in> set g \<Longrightarrow> Low b \<le> High b"
  shows "Min (set (map Low g)) \<le> Max (set (map High g))"
proof -
  from assms(1) obtain b where b: "b \<in> set g" by (cases g) auto
  have "Min (set (map Low g)) \<le> Low b" using b by (intro Min_le) auto
  also have "Low b \<le> High b" using b by (rule assms(2))
  also have "High b \<le> Max (set (map High g))" using b by (intro Max_ge) auto
  finally show ?thesis .
qed

lemma one_day_resample:
  "resample_agg one_day =
     [\<lparr>Date = 1, Open_d = Fin 101, High_d = Fin 103, Low_d = Fin 99, Close_d = Fin 100, Volume_d = 15\<rparr>]"
  by (simp add: resample_agg_def one_day_def date_of_def agg_bin_def day_rows_def Let_def
      agg_last_def agg_max_def agg_min_def agg_sum_def upto_rec1)

lemma one_day_keys: "group_keys one_day = [1]"
  by (simp add: group_keys_def one_day_def date_of_def)

lemma gap_days_keys: "group_keys gap_days = [1, 3]"
  by (simp add: group_keys_def gap_days_def date_of_def)

lemma one_day_R:
  "es_daily_R one_day =
     [\<lparr>Date = 1, Open_d = 101, High_d = 103, Low_d = 99, Close_d = 100, Volume_d = 15\<rparr>]"
  by (simp add: es_daily_R_def group_keys_def summarise_group_def day_rows_def Let_def
      one_day_def date_of_def)

lemma gap_days_valid: "list_all valid_bar gap_days"
  by (simp add: gap_days_def valid_bar_def)

lemma one_day_valid: "list_all valid_bar one_day"
  by (simp add: one_day_def valid_bar_def)

lemma one_day_sql:
  "sql_daily one_day =
     [\<lparr>Date = 1, Open_d = 201 / 2, High_d = 103, Low_d = 99, Close_d = 203 / 2, Volume_d = 15\<rparr>]"
  by (simp add: sql_daily_def group_keys_def sql_group_def day_rows_def Let_def
      one_day_def date_of_def)

lemma one_day_dates: "dates one_day = {1}"
  by (simp add: dates_def one_day_def date_of_def)

text \<open>
  The notebook (on a table in time order) and the R script (on any table) give, for every
  date of the input, the open of the first bar of the date, the highest high, the lowest
  low, the close of the last bar and the sum of the volumes.
\<close>

lemma agg_first_map: "g \<noteq> [] \<Longrightarrow> agg_first (map f g) = Fin (f (hd g))"
  by (cases g) auto

lemma resample_agg_day_bar:
  assumes "sorted (map Time es)" and "d \<in> dates es"
  shows "\<exists>r \<in> set (resample_agg es). Date r = d \<and>
           Open_d r = Fin (Open (hd (day_rows es d))) \<and>
           High_d r = Fin (Max (High ` set (day_rows es d))) \<and>
           Low_d r = Fin (Min (Low ` set (day_rows es d))) \<and>
           Close_d r = Fin (Close (last (day_rows es d))) \<and>
           Volume_d r = sum_list (map Volume (day_rows es d))"
proof -
  have obj: "sort_key Time es = es" using assms(1) by (rule sort_key_id_if_sorted)
  from assms(2) have ne: "es \<noteq> []" by (auto simp: dates_def)
  have g: "day_rows es d \<noteq> []" using assms(2) by (simp add: day_rows_nonempty)
  have "d \<in> set (map Date (resample_agg es))"
    using assms(2) ne by (auto simp: resample_agg_def Let_def obj agg_bin_def comp_def dates_def
      intro!: sorted_hd_le [OF assms(1)] sorted_le_last [OF assms(1)] date_of_mono)
  then have "agg_bin es d \<in> set (resample_agg es)"
    using ne by (auto simp: resample_agg_def Let_def obj agg_bin_def)
  moreover have "Date (agg_bin es d) = d \<and>
           Open_d (agg_bin es d) = Fin (Open (hd (day_rows es d))) \<and>
           High_d (agg_bin es d) = Fin (Max (High ` set (day_rows es d))) \<and>
           Low_d (agg_bin es d) = Fin (Min (Low ` set (day_rows es d))) \<and>
           Close_d (agg_bin es d) = Fin (Close (last (day_rows es d))) \<and>
           Volume_d (agg_bin es d) = sum_list (map Volume (day_rows es d))"
    using g by (simp add: agg_bin_def Let_def agg_first_map agg_last_def agg_max_def
        agg_min_def agg_sum_def last_map)
  ultimately show ?thesis by blast
qed

lemma es_daily_R_day_bar:
  assumes "d \<in> dates es"
  shows "\<exists>r \<in> set (es_daily_R es). Date r = d \<and>
           Open_d r = Open (hd (day_rows es d)) \<and>
           High_d r = Max (High ` set (day_rows es d)) \<and>
           Low_d r = Min (Low ` set (day_rows es d)) \<and>
           Close_d r = Close (last (day_rows es d)) \<and>
           Volume_d r = sum_list (map Volume (day_rows es d))"
proof -
  have g: "day_rows es d \<noteq> []" using assms by (simp add: day_rows_nonempty)
  have "summarise_group es d \<in> set (es_daily_R es)"
    using assms by (simp add: es_daily_R_def set_group_keys)
  moreover have "Date (summarise_group es d) = d \<and>
           Open_d (summarise_group es d) = Open (hd (day_rows es d)) \<and>
           High_d (summarise_group es d) = Max (High ` set (day_rows es d)) \<and>
           Low_d (summarise_group es d) = Min (Low ` set (day_rows es d)) \<and>
           Close_d (summarise_group es d) = Close (last (day_rows es d)) \<and>
           Volume_d (summarise_group es d) = sum_list (map Volume (day_rows es d))"
    using g by (simp add: summarise_group_def Let_def hd_map last_map)
  ultimately show ?thesis by blast
qed

text \<open>
  C1. The daily bar of a date has the open of the first bar of the date, the maximum high,
  the minimum low, the close of the last bar and the sum of the volumes, in each of the
  three variants. The SQL script takes \<^verbatim>\<open>MIN(Open)\<close> and \<^verbatim>\<open>MAX(Close)\<close>: on
  \<open>one_day\<close>, whose first open is 101 and last close is 100, its daily open is 100.5 and
  its daily close is 101.5.
\<close>

theorem sql_daily_open_close:
  "sql_daily one_day =
     [\<lparr>Date = 1, Open_d = 201 / 2, High_d = 103, Low_d = 99, Close_d = 203 / 2, Volume_d = 15\<rparr>] \<and>
   Open (hd one_day) = 101 \<and> Close (last one_day) = 100"
  by (simp add: one_day_sql) (simp add: one_day_def)

subsection \<open>High and low\<close>

text \<open>
  C6 as stated fails on the notebook: \<open>gap_days\<close> is valid, and the row of day 2 in its
  daily table has a missing high and a missing low, which do not compare.
\<close>

theorem gap_row_high_low:
  "list_all valid_bar gap_days \<and>
   High_d (resample_agg gap_days ! 1) = NaN \<and> Low_d (resample_agg gap_days ! 1) = NaN \<and>
   \<not> fl_ge (High_d (resample_agg gap_days ! 1)) (Low_d (resample_agg gap_days ! 1))"
  by (simp add: gap_days_valid gap_days_resample)

text \<open>
  C6, amended. When every bar of the input has its high at or above its open and close and
  its low at or below them, every daily bar of a date that has a bar has its high at or
  above its low: in the notebook every row whose date occurs in the input, in the SQL and R
  variants every row.
\<close>

theorem daily_high_ge_low:
  assumes "list_all valid_bar es"
  shows "(\<forall>r \<in> set (resample_agg es). Date r \<in> dates es \<longrightarrow> fl_ge (High_d r) (Low_d r)) \<and>
         (\<forall>r \<in> set (sql_daily es). Low_d r \<le> High_d r) \<and>
         (\<forall>r \<in> set (es_daily_R es). Low_d r \<le> High_d r)"
proof (intro conjI ballI impI)
  fix r assume r: "r \<in> set (resample_agg es)" and d: "Date r \<in> dates es"
  let ?obj = "sort_key Time es"
  from r obtain d' where r': "r = agg_bin ?obj d'"
    by (auto simp: resample_agg_def Let_def split: if_splits)
  then have "Date r = d'" by (simp add: agg_bin_def Let_def)
  with d have ne: "day_rows ?obj d' \<noteq> []" by (simp add: day_rows_nonempty)
  have "Min (set (map Low (day_rows ?obj d'))) \<le> Max (set (map High (day_rows ?obj d')))"
    using ne day_rows_valid [OF assms, of ?obj] by (intro Min_low_le_Max_high) auto
  then show "fl_ge (High_d r) (Low_d r)"
    using ne by (simp add: r' agg_bin_def Let_def agg_max_def agg_min_def)
next
  fix r assume "r \<in> set (sql_daily es)"
  then obtain d where r: "r = sql_group es d" and d: "d \<in> dates es"
    by (auto simp: sql_daily_def set_group_keys)
  from d have ne: "day_rows es d \<noteq> []" by (simp add: day_rows_nonempty)
  have "Min (set (map Low (day_rows es d))) \<le> Max (set (map High (day_rows es d)))"
    using ne day_rows_valid [OF assms, of es] by (intro Min_low_le_Max_high) auto
  then show "Low_d r \<le> High_d r" by (simp add: r sql_group_def Let_def)
next
  fix r assume "r \<in> set (es_daily_R es)"
  then obtain d where r: "r = summarise_group es d" and d: "d \<in> dates es"
    by (auto simp: es_daily_R_def set_group_keys)
  from d have ne: "day_rows es d \<noteq> []" by (simp add: day_rows_nonempty)
  have "Min (set (map Low (day_rows es d))) \<le> Max (set (map High (day_rows es d)))"
    using ne day_rows_valid [OF assms, of es] by (intro Min_low_le_Max_high) auto
  then show "Low_d r \<le> High_d r" by (simp add: r summarise_group_def Let_def)
qed

theorem daily_high_ge_low_witness:
  "list_all valid_bar one_day \<and>
   (\<exists>r \<in> set (resample_agg one_day). Date r \<in> dates one_day \<and> fl_ge (High_d r) (Low_d r)) \<and>
   (\<exists>r \<in> set (sql_daily one_day). Low_d r \<le> High_d r) \<and>
   (\<exists>r \<in> set (es_daily_R one_day). Low_d r \<le> High_d r)"
proof -
  note t = daily_high_ge_low [OF one_day_valid]
  have "\<exists>r \<in> set (resample_agg one_day). Date r \<in> dates one_day"
    by (simp add: one_day_resample one_day_dates)
  with t have 1: "\<exists>r \<in> set (resample_agg one_day). Date r \<in> dates one_day \<and> fl_ge (High_d r) (Low_d r)"
    by blast
  have "\<exists>r. r \<in> set (sql_daily one_day)" by (simp add: one_day_sql)
  with t have 2: "\<exists>r \<in> set (sql_daily one_day). Low_d r \<le> High_d r" by blast
  have "\<exists>r. r \<in> set (es_daily_R one_day)" by (simp add: one_day_R)
  with t have 3: "\<exists>r \<in> set (es_daily_R one_day). Low_d r \<le> High_d r" by blast
  from 1 2 3 one_day_valid show ?thesis by simp
qed

section \<open>Properties of the moving averages\<close>














section \<open>Properties of the Return and Signal Calculator\<close>

lemma length_ffill_from: "length (ffill_from p xs) = length xs"
  by (induction xs arbitrary: p) auto

lemma ffill_from_empty: "(ffill_from p xs = []) = (xs = [])"
  by (cases xs) auto

lemma lag1_nth: "0 < i \<Longrightarrow> i < length xs \<Longrightarrow> lag1 xs ! i = Some (xs ! (i - 1))"
  by (cases i) (auto simp: lag1_def nth_butlast)

lemma length_lag1: "length (lag1 xs) = length xs"
  by (simp add: lag1_def)

lemma sql_returns_sorted:
  "sorted (map fst dc) \<Longrightarrow>
     sql_returns dc = map (\<lambda>((d, c), prev). (d, c, sql_div (sql_sub (Some c) prev) prev))
           (zip dc (lag1 (map snd dc)))"
  by (simp add: sql_returns_def sort_key_id_if_sorted)

lemma sql_returns_rows:
  "sorted (map fst dc) \<Longrightarrow> map (\<lambda>r. (fst r, fst (snd r))) (sql_returns dc) = dc"
  by (auto simp: sql_returns_sorted length_lag1 intro!: nth_equalityI split: prod.splits)

lemma sql_returns_first:
  "sorted (map fst dc) \<Longrightarrow> dc \<noteq> [] \<Longrightarrow> snd (snd (sql_returns dc ! 0)) = None"
  by (cases dc) (auto simp: sql_returns_sorted lag1_def sql_div_def sql_sub_def)

lemma sql_returns_nth:
  assumes "sorted (map fst dc)" and "0 < i" and "i < length dc"
  shows "snd (snd (sql_returns dc ! i)) =
     (if snd (dc ! (i - 1)) = 0 then None
      else Some ((snd (dc ! i) - snd (dc ! (i - 1))) / snd (dc ! (i - 1))))"
  using assms
  by (simp add: sql_returns_sorted length_lag1 lag1_nth sql_div_def sql_sub_def split: prod.splits)

lemma up_three_resample:
  "resample_agg up_three =
    [\<lparr>Date = 1, Open_d = Fin 99, High_d = Fin 101, Low_d = Fin 98, Close_d = Fin 100, Volume_d = 7\<rparr>,
     \<lparr>Date = 2, Open_d = Fin 100, High_d = Fin 104, Low_d = Fin 100, Close_d = Fin 103, Volume_d = 9\<rparr>]"
  by (simp add: resample_agg_def up_three_def date_of_def agg_bin_def day_rows_def Let_def
      agg_last_def agg_max_def agg_min_def agg_sum_def upto_rec1)


lemma up_three_daily_close: "daily_close up_three = [(1, 100), (2, 103)]"
  by (simp add: daily_close_def group_keys_def day_rows_def up_three_def date_of_def)


lemma ffill_from_last_defined:
  "i < length xs \<Longrightarrow>
     ffill_from p xs ! i =
       (case [x \<leftarrow> rev (take (Suc i) xs). x \<noteq> NaN] of [] \<Rightarrow> p | x # _ \<Rightarrow> x)"
proof (induction xs arbitrary: p i)
  case Nil
  then show ?case by simp
next
  case (Cons x xs)
  show ?case
  proof (cases i)
    case 0
    then show ?thesis by simp
  next
    case (Suc j)
    with Cons.prems have j: "j < length xs" by simp
    show ?thesis
      using Cons.IH [OF j] by (simp add: Suc split: list.splits)
  qed
qed

lemma ffill_last_defined: "i < length xs \<Longrightarrow> ffill xs ! i = last_defined xs i"
  by (simp add: ffill_def last_defined_def ffill_from_last_defined)

lemma last_defined_Fin: "i < length xs \<Longrightarrow> xs ! i = Fin c \<Longrightarrow> last_defined xs i = Fin c"
  by (simp add: last_defined_def take_Suc_conv_app_nth)

lemma last_defined_NaN:
  "0 < i \<Longrightarrow> i < length xs \<Longrightarrow> xs ! i = NaN \<Longrightarrow> last_defined xs i = last_defined xs (i - 1)"
  by (cases i) (simp_all add: last_defined_def take_Suc_conv_app_nth)

lemma length_pct_change_f64: "length (pct_change_f64 xs) = length xs"
  by (simp add: pct_change_f64_def Let_def shift1_def ffill_def length_ffill_from ffill_from_empty)

lemma pct_change_f64_first: "xs \<noteq> [] \<Longrightarrow> pct_change_f64 xs ! 0 = NaN"
proof -
  assume "xs \<noteq> []"
  then have ne: "ffill xs \<noteq> []" by (simp add: ffill_def ffill_from_empty)
  then obtain a as where a: "ffill xs = a # as" by (cases "ffill xs") auto
  show ?thesis
    by (cases a) (simp_all add: pct_change_f64_def Let_def shift1_def a f64_div_def f64_sub_def)
qed

lemma pct_change_f64_nth:
  assumes "0 < i" and "i < length xs"
  shows "pct_change_f64 xs ! i =
    f64_sub (f64_div (last_defined xs i) (last_defined xs (i - 1))) (Fin 1)"
proof -
  have len: "length (ffill xs) = length xs" by (simp add: ffill_def length_ffill_from)
  have ne: "ffill xs \<noteq> []" using assms len by auto
  have "shift1 (ffill xs) ! i = ffill xs ! (i - 1)"
    using assms len ne by (cases i) (simp_all add: shift1_def nth_butlast)
  moreover have "ffill xs ! i = last_defined xs i" "ffill xs ! (i - 1) = last_defined xs (i - 1)"
    using assms by (simp_all add: ffill_last_defined)
  ultimately show ?thesis
    using assms len by (simp add: pct_change_f64_def Let_def shift1_def ne)
qed

lemma round_double_0: "round_double 0 = 0"
  by (simp add: round_double_def)

lemma round_double_1: "round_double 1 = 1"
  by code_simp

lemma f64_same: "p \<noteq> 0 \<Longrightarrow> f64_sub (f64_div (Fin p) (Fin p)) (Fin 1) = Fin 0"
  by (simp add: f64_div_def f64_sub_def round_double_0 round_double_1)

lemma f64_finite:
  "p \<noteq> 0 \<Longrightarrow>
     f64_sub (f64_div (Fin c) (Fin p)) (Fin 1) = Fin (round_double (round_double (c / p) - 1))"
  by (simp add: f64_div_def f64_sub_def)

lemma gap_days_closes: "map Close_d (resample_agg gap_days) = [Fin 100, NaN, Fin 110]"
  by (simp add: gap_days_resample)

lemma up_three_closes: "map Close_d (resample_agg up_three) = [Fin 100, Fin 103]"
  by (simp add: up_three_resample)

lemma rd_103: "round_double (round_double (103 / 100) - 1) = 135107988821115 / 4503599627370496"
  by code_simp

text \<open>
  C4 as stated fails on the notebook, in two ways. The daily table of \<open>gap_days\<close> has the
  closes 100, missing, 110, and the return of its second record is 0, where
  \<open>(close - prior_close) / prior_close\<close> is missing. The closes 100, 103 give the return
  0.030000000000000027 (the double 1.03 minus 1), where \<open>(103 - 100) / 100\<close> is the
  double 0.03.
\<close>

theorem daily_return_not_exact:
  "map Close_d (resample_agg gap_days) = [Fin 100, NaN, Fin 110] \<and>
   pct_change_f64 (map Close_d (resample_agg gap_days)) ! 1 = Fin 0 \<and>
   spec_return NaN (Fin 100) = NaN \<and>
   map Close_d (resample_agg up_three) = [Fin 100, Fin 103] \<and>
   pct_change_f64 (map Close_d (resample_agg up_three)) ! 1 =
     Fin (135107988821115 / 4503599627370496) \<and>
   spec_return (Fin 103) (Fin 100) = Fin (1080863910568919 / 36028797018963968)"
  by code_simp

text \<open>
  C4, amended. There is one return per daily bar, in the same order; the return of the first
  record is missing; at every later record the return is, in double precision,
  \<open>close / prior_close - 1\<close> on the closes after forward fill, where a missing close has
  been replaced by the most recent close before it that is not missing. So at two closes
  in a row that are numbers it is the double of \<open>close / prior_close\<close> minus 1, rounded;
  and at a record without a close that follows a close other than zero it is 0. In SQL the
  return of the first row is NULL, and at a later row with a prior close other than zero it
  is \<open>(close - prior_close) / prior_close\<close> as the query writes it.
\<close>

theorem daily_return_padded:
  "length (pct_change_f64 (map Close_d es_daily)) = length es_daily \<and>
   (es_daily \<noteq> [] \<longrightarrow> pct_change_f64 (map Close_d es_daily) ! 0 = NaN) \<and>
   (0 < i \<and> i < length es_daily \<longrightarrow>
      pct_change_f64 (map Close_d es_daily) ! i =
        f64_sub (f64_div (last_defined (map Close_d es_daily) i)
                         (last_defined (map Close_d es_daily) (i - 1))) (Fin 1) \<and>
      (Close_d (es_daily ! i) = Fin c \<and> Close_d (es_daily ! (i - 1)) = Fin p \<and> p \<noteq> 0 \<longrightarrow>
         pct_change_f64 (map Close_d es_daily) ! i =
           Fin (round_double (round_double (c / p) - 1))) \<and>
      (Close_d (es_daily ! i) = NaN \<and>
       last_defined (map Close_d es_daily) (i - 1) = Fin p \<and> p \<noteq> 0 \<longrightarrow>
         pct_change_f64 (map Close_d es_daily) ! i = Fin 0)) \<and>
   (sorted (map fst dc) \<longrightarrow>
      map (\<lambda>r. (fst r, fst (snd r))) (sql_returns dc) = dc \<and>
      (dc \<noteq> [] \<longrightarrow> snd (snd (sql_returns dc ! 0)) = None) \<and>
      (0 < k \<and> k < length dc \<and> snd (dc ! (k - 1)) \<noteq> 0 \<longrightarrow>
         snd (snd (sql_returns dc ! k)) =
           Some ((snd (dc ! k) - snd (dc ! (k - 1))) / snd (dc ! (k - 1)))))"
proof -
  let ?cs = "map Close_d es_daily"
  have 1: "length (pct_change_f64 ?cs) = length es_daily"
    by (simp add: length_pct_change_f64)
  have 2: "es_daily \<noteq> [] \<Longrightarrow> pct_change_f64 ?cs ! 0 = NaN"
    by (simp add: pct_change_f64_first)
  have 3: "pct_change_f64 ?cs ! i =
        f64_sub (f64_div (last_defined ?cs i) (last_defined ?cs (i - 1))) (Fin 1)"
    if "0 < i \<and> i < length es_daily"
    using that by (intro pct_change_f64_nth) simp_all
  have 4: "pct_change_f64 ?cs ! i = Fin (round_double (round_double (c / p) - 1))"
    if h: "0 < i \<and> i < length es_daily"
      and v: "Close_d (es_daily ! i) = Fin c \<and> Close_d (es_daily ! (i - 1)) = Fin p \<and> p \<noteq> 0"
  proof -
    from h have a: "i - 1 < length ?cs" "i < length ?cs" by auto
    have "last_defined ?cs i = Fin c" "last_defined ?cs (i - 1) = Fin p"
      using h v a by (simp_all add: last_defined_Fin)
    then show ?thesis using 3 [OF h] v by (simp add: f64_finite)
  qed
  have 5: "pct_change_f64 ?cs ! i = Fin 0"
    if h: "0 < i \<and> i < length es_daily"
      and v: "Close_d (es_daily ! i) = NaN \<and> last_defined ?cs (i - 1) = Fin p \<and> p \<noteq> 0"
  proof -
    have "last_defined ?cs i = last_defined ?cs (i - 1)"
      using h v by (intro last_defined_NaN) simp_all
    then show ?thesis using 3 [OF h] v by (simp add: f64_same)
  qed
  have 6: "sorted (map fst dc) \<Longrightarrow> 0 < k \<and> k < length dc \<and> snd (dc ! (k - 1)) \<noteq> 0 \<Longrightarrow>
         snd (snd (sql_returns dc ! k)) =
           Some ((snd (dc ! k) - snd (dc ! (k - 1))) / snd (dc ! (k - 1)))"
    using sql_returns_nth [of dc k] by simp
  show ?thesis
    using 1 2 3 4 5 6 sql_returns_rows [of dc] sql_returns_first [of dc] by blast
qed

theorem daily_return_padded_witness:
  "pct_change_f64 (map Close_d (resample_agg gap_days)) ! 0 = NaN \<and>
   pct_change_f64 (map Close_d (resample_agg gap_days)) ! 1 = Fin 0 \<and>
   pct_change_f64 (map Close_d (resample_agg up_three)) ! 1 =
     Fin (135107988821115 / 4503599627370496) \<and>
   snd (snd (sql_returns (daily_close up_three) ! 0)) = None \<and>
   snd (snd (sql_returns (daily_close up_three) ! 1)) = Some (3 / 100)"
proof -
  let ?g = "resample_agg gap_days" and ?u = "resample_agg up_three"
  let ?dc = "daily_close up_three"
  have g: "?g \<noteq> []" "0 < (1::nat) \<and> 1 < length ?g"
    "Close_d (?g ! 1) = NaN \<and> last_defined (map Close_d ?g) (1 - 1) = Fin 100 \<and> (100::rat) \<noteq> 0"
    by (simp_all add: gap_days_resample last_defined_def)
  have u: "0 < (1::nat) \<and> 1 < length ?u"
    "Close_d (?u ! 1) = Fin 103 \<and> Close_d (?u ! (1 - 1)) = Fin 100 \<and> (100::rat) \<noteq> 0"
    by (simp_all add: up_three_resample)
  have s: "sorted (map fst ?dc)" "?dc \<noteq> []"
    "0 < (1::nat) \<and> 1 < length ?dc \<and> snd (?dc ! (1 - 1)) \<noteq> 0"
    by (simp_all add: up_three_daily_close)
  have v: "(snd (?dc ! 1) - snd (?dc ! (1 - 1))) / snd (?dc ! (1 - 1)) = 3 / 100"
    by (simp add: up_three_daily_close)
  note tg = daily_return_padded [of ?g 1 0 100 ?dc 1]
  note tu = daily_return_padded [of ?u 1 103 100 ?dc 1]
  from tg g have a: "pct_change_f64 (map Close_d ?g) ! 0 = NaN"
    "pct_change_f64 (map Close_d ?g) ! 1 = Fin 0" by blast+
  from tu u have b: "pct_change_f64 (map Close_d ?u) ! 1 =
      Fin (round_double (round_double (103 / 100) - 1))" by blast
  from tu s have c: "snd (snd (sql_returns ?dc ! 0)) = None"
    "snd (snd (sql_returns ?dc ! 1)) =
       Some ((snd (?dc ! 1) - snd (?dc ! (1 - 1))) / snd (?dc ! (1 - 1)))" by blast+
  show ?thesis using a b c v rd_103 by simp
qed


section \<open>Properties of the Correlation and Distribution Reporter\<close>

lemma welford_one:
  "nobs (welford_step welford_init p) \<le> 1 \<and> ssqdm_x (welford_step welford_init p) = 0"
proof (cases p)
  case (Pair x y)
  show ?thesis unfolding Pair by (cases x; cases y) (simp_all add: welford_init_def Let_def)
qed

lemma nancorr_short: "length xs \<le> 1 \<Longrightarrow> nancorr xs ys = None"
proof (cases xs)
  case Nil
  then show ?thesis by (simp add: nancorr_def welford_init_def)
next
  case (Cons x xs')
  assume "length xs \<le> 1"
  with Cons have xs: "xs = [x]" by simp
  show ?thesis
  proof (cases ys)
    case Nil
    then show ?thesis by (simp add: nancorr_def welford_init_def)
  next
    case (Cons y ys')
    then have z: "zip xs ys = [(x, y)]" by (simp add: xs)
    show ?thesis
      using welford_one [of "(x, y)"] by (simp add: nancorr_def z Let_def)
  qed
qed

lemma resample_agg_one_date: "card (dates es) < 2 \<Longrightarrow> length (resample_agg es) \<le> 1"
proof (cases "es = []")
  case True
  then show ?thesis by (simp add: resample_agg_def)
next
  case False
  assume c: "card (dates es) < 2"
  have fin: "finite (dates es)" by (simp add: dates_def)
  have ne: "dates es \<noteq> {}" using False by (simp add: dates_def)
  then have "card (dates es) = 1" using c fin by (metis One_nat_def Suc_lessI card_gt_0_iff numeral_2_eq_2 not_less_eq)
  then obtain d where d: "dates es = {d}" by (rule card_1_singletonE)
  have "map Date (resample_agg es) = [Min (dates es) .. Max (dates es)]"
    using False by (rule resample_agg_dates)
  then have "length (map Date (resample_agg es)) = 1" by (simp add: d)
  then show ?thesis by simp
qed

text \<open>
  C7 as stated fails on the notebook: on \<open>one_day\<close>, a table with a single date, the
  reporter raises nothing and returns the 5 by 5 matrix whose entries are all NaN.
\<close>

theorem corr_one_date_nan:
  "dates one_day = {1} \<and>
   correlation_matrix (resample_agg one_day) =
     [[None, None, None, None, None], [None, None, None, None, None],
      [None, None, None, None, None], [None, None, None, None, None],
      [None, None, None, None, None]]"
  by (simp add: one_day_dates one_day_resample correlation_matrix_def corr_columns_def
      nancorr_def welford_init_def Let_def)

text \<open>
  C7, amended. Given fewer than 2 dates with data, the reporter raises no error: it returns
  the 5 by 5 correlation matrix whose entries are all missing.
\<close>

theorem corr_few_dates:
  "card (dates es) < 2 \<Longrightarrow> correlation_matrix (resample_agg es) = replicate 5 (replicate 5 None)"
proof -
  assume "card (dates es) < 2"
  then have l: "length (resample_agg es) \<le> 1" by (rule resample_agg_one_date)
  have "\<And>f y. nancorr (map f (resample_agg es)) y = None"
    using l by (intro nancorr_short) simp
  then show ?thesis
    by (simp add: correlation_matrix_def corr_columns_def Let_def numeral_eq_Suc)
qed

theorem corr_few_dates_witness:
  "card (dates one_day) < 2 \<and>
   correlation_matrix (resample_agg one_day) = replicate 5 (replicate 5 None)"
proof -
  have c: "card (dates one_day) < 2" by (simp add: one_day_dates)
  show ?thesis using corr_few_dates [OF c] c by simp
qed

section \<open>Properties of the Forecaster\<close>

lemma last_filter_last: "xs \<noteq> [] \<Longrightarrow> P (last xs) \<Longrightarrow> last (filter P xs) = last xs"
  by (induction xs) (auto simp: filter_empty_conv)

lemma filter_last_nonempty: "xs \<noteq> [] \<Longrightarrow> P (last xs) \<Longrightarrow> filter P xs \<noteq> []"
  by (auto simp: filter_empty_conv)

lemma resample_agg_last:
  assumes "es \<noteq> []"
  shows "resample_agg es \<noteq> []"
    and "Date (last (resample_agg es)) = Max (dates es)"
    and "Close_d (last (resample_agg es)) \<noteq> NaN"
proof -
  let ?obj = "sort_key Time es"
  let ?lo = "Min (dates es)" and ?hi = "Max (dates es)"
  have fin: "finite (dates es)" and ne: "dates es \<noteq> {}"
    using assms by (simp_all add: dates_def)
  have le: "?lo \<le> ?hi" using fin ne by simp
  have r: "resample_agg es = map (agg_bin ?obj) [?lo..?hi]"
    using assms by (simp add: resample_agg_def Let_def first_date last_date)
  have u: "[?lo..?hi] = [?lo..?hi - 1] @ [?hi]" using le by (rule upto_rec2)
  show "resample_agg es \<noteq> []" unfolding r using u by simp
  have l: "last (resample_agg es) = agg_bin ?obj ?hi"
    unfolding r by (subst u) simp
  show "Date (last (resample_agg es)) = ?hi" by (simp add: l Date_agg_bin)
  have "?hi \<in> dates es" using fin ne by (rule Max_in)
  then have "day_rows ?obj ?hi \<noteq> []" by (intro day_rows_nonempty) simp_all
  then show "Close_d (last (resample_agg es)) \<noteq> NaN"
    by (simp add: l agg_bin_def Let_def agg_last_def)
qed

lemma resample_agg_date_le:
  assumes "r \<in> set (resample_agg es)"
  shows "Date r \<le> Max (dates es)"
proof -
  from assms have ne: "es \<noteq> []" by (auto simp: resample_agg_def)
  have "Date r \<in> set (map Date (resample_agg es))" using assms by simp
  then show ?thesis by (simp add: resample_agg_dates [OF ne])
qed

lemma forecast_index_outside:
  assumes "r \<in> set (resample_agg es)"
  shows "forecast_index dated
           (map Date [r \<leftarrow> resample_agg es. Close_d r \<noteq> NaN]) k \<noteq> Day (Date r)"
proof -
  let ?d = "resample_agg es"
  let ?rows = "[r \<leftarrow> ?d. Close_d r \<noteq> NaN]"
  from assms have ne: "es \<noteq> []" by (auto simp: resample_agg_def)
  note l = resample_agg_last [OF ne]
  have rows: "?rows \<noteq> []" using l(1) l(3) by (rule filter_last_nonempty)
  have "last ?rows = last ?d" using l(1) l(3) by (rule last_filter_last)
  then have "last (map Date ?rows) = Max (dates es)"
    using rows l(2) by (simp add: last_map)
  moreover have "Date r \<le> Max (dates es)" using assms by (rule resample_agg_date_le)
  ultimately show ?thesis by (simp add: forecast_index_def)
qed

lemma predict_length: "length (predict m n (n + 30)) = 31"
  by (simp add: predict_def del: upt_Suc)

lemma predict_indices: "map fst (predict m n (n + 30)) = [n ..< n + 31]"
  by (simp add: predict_def comp_def add.commute del: upt_Suc)

lemma sixty_days_closes:
  "length [r \<leftarrow> resample_agg sixty_days. Close_d r \<noteq> NaN] = 60"
  by code_simp

text \<open>
  C9. The forecast is for exactly 30 periods beyond the last observation. The notebook asks
  \<^verbatim>\<open>predict\<close> for the indices from \<open>len(es_close)\<close> to \<open>len(es_close) + 30\<close>, both
  included: on a series that the library fits, the predictions are 31, and the column
  \<^verbatim>\<open>es_daily['Forecast']\<close> holds none of them, their labels being past the last row.
\<close>

theorem forecast_thirty_one:
  "forecast fit dated (resample_agg es_data) = Inr (predicted, column) \<longrightarrow>
     length predicted = 31 \<and>
     map fst predicted =
       [length [r \<leftarrow> resample_agg es_data. Close_d r \<noteq> NaN] ..<
        length [r \<leftarrow> resample_agg es_data. Close_d r \<noteq> NaN] + 31] \<and>
     column = replicate (length (resample_agg es_data)) None"
proof
  let ?d = "resample_agg es_data"
  let ?rows = "[r \<leftarrow> ?d. Close_d r \<noteq> NaN]"
  let ?n = "length ?rows"
  assume a: "forecast fit dated ?d = Inr (predicted, column)"
  then obtain m where m: "fit (map Close_d ?rows) = Inr m"
    by (auto simp: forecast_def Let_def split: sum.splits)
  let ?series = "map (\<lambda>(k, v). (forecast_index dated (map Date ?rows) k, v)) (predict m ?n (?n + 30))"
  from a m have p: "predicted = predict m ?n (?n + 30)"
    and c: "column = assign_column (map (\<lambda>r. Day (Date r)) ?d) ?series"
    by (auto simp: forecast_def Let_def)
  have "map_of ?series (Day (Date r)) = None" if "r \<in> set ?d" for r
  proof -
    have out: "forecast_index dated (map Date ?rows) k \<noteq> Day (Date r)" for k
      using that by (rule forecast_index_outside)
    have "Day (Date r) \<notin> fst ` set ?series"
    proof
      assume "Day (Date r) \<in> fst ` set ?series"
      then obtain k where "Day (Date r) = forecast_index dated (map Date ?rows) k"
        by force
      with out [of k] show False by simp
    qed
    then show ?thesis unfolding map_of_eq_None_iff .
  qed
  then have "column = replicate (length ?d) None"
    unfolding c assign_column_def by (intro nth_equalityI) simp_all
  then show "length predicted = 31 \<and> map fst predicted = [?n ..< ?n + 31] \<and>
     column = replicate (length ?d) None"
    using p by (simp only: predict_length predict_indices simp_thms)
qed

text \<open>
  On \<open>sixty_days\<close> the predictions are for the indices 60 to 90; the two closes of
  \<open>up_three\<close> are refused.
\<close>

theorem forecast_thirty_one_witness:
  "(\<exists>predicted column.
      forecast guarded_fit True (resample_agg sixty_days) = Inr (predicted, column) \<and>
      length predicted = 31 \<and> map fst predicted = [60 ..< 91] \<and>
      column = replicate (length (resample_agg sixty_days)) None) \<and>
   forecast guarded_fit True (resample_agg up_three) = Inl Refused"
proof -
  let ?d = "resample_agg sixty_days"
  have n: "length [r \<leftarrow> ?d. Close_d r \<noteq> NaN] = 60" by (rule sixty_days_closes)
  then have "\<exists>m. guarded_fit (map Close_d [r \<leftarrow> ?d. Close_d r \<noteq> NaN]) = Inr m"
    by (simp add: guarded_fit_def)
  then obtain predicted column where
    f: "forecast guarded_fit True ?d = Inr (predicted, column)"
    by (auto simp: forecast_def Let_def)
  from forecast_thirty_one [of guarded_fit True sixty_days predicted column] f
  have "length predicted = 31 \<and>
     map fst predicted =
       [length [r \<leftarrow> ?d. Close_d r \<noteq> NaN] ..< length [r \<leftarrow> ?d. Close_d r \<noteq> NaN] + 31] \<and>
     column = replicate (length ?d) None" by blast
  then have "length predicted = 31 \<and> map fst predicted = [60 ..< 91] \<and>
     column = replicate (length ?d) None" by (simp only: n) simp
  with f have 1: "\<exists>predicted column.
      forecast guarded_fit True ?d = Inr (predicted, column) \<and>
      length predicted = 31 \<and> map fst predicted = [60 ..< 91] \<and>
      column = replicate (length ?d) None" by blast
  have 2: "forecast guarded_fit True (resample_agg up_three) = Inl Refused"
    by (simp add: forecast_def Let_def up_three_resample guarded_fit_def)
  from 1 2 show ?thesis by blast
qed

end
